theory Spec2Isabelle
  imports Main "HOL-Library.Multiset"
begin

section \<open>The store of bot.js\<close>

text \<open>
  The bot keeps two SQLite tables, \<open>users\<close> and \<open>links\<close>. A row of \<open>users\<close> is
  \<open>(id, username, points, last_active, warned)\<close>; a row of \<open>links\<close> is
  \<open>(id, user_id, url, title, created_at)\<close>.

  Conventions of the embedding:
  \<^item> a table is the list of its rows; \<open>UPDATE ... WHERE id = ?\<close> rewrites every row
    with that id, \<open>SELECT ... WHERE id = ?\<close> with \<open>.get\<close> returns the first one;
  \<^item> \<open>id INTEGER PRIMARY KEY\<close> of \<open>users\<close> is the predicate \<open>primary_key\<close>
    (no two rows share an id), which every operation of the bot keeps;
  \<^item> \<open>AUTOINCREMENT\<close> of \<open>links\<close> is the counter \<open>links_seq\<close>;
  \<^item> a timestamp (\<open>CURRENT_TIMESTAMP\<close>, \<open>new Date()\<close>) is a number of seconds,
    the resolution of \<open>CURRENT_TIMESTAMP\<close>; every handler reads the clock once, as its
    argument \<open>now\<close>;
  \<^item> \<open>points\<close> is an unbounded integer (the 64-bit range of an SQLite INTEGER is not
    modelled);
  \<^item> \<open>warned\<close> is the integer column it is in the table, 0 or 1;
  \<^item> a JavaScript string is a \<open>string\<close>: one \<open>char\<close> per UTF-16 code unit below
    256; text with other code units is outside the model;
  \<^item> \<open>undefined\<close> for a missing field of a Telegram payload is \<open>None\<close>.
\<close>

record user =
  uid :: int
  username :: "string option"
  points :: int
  last_active :: int
  warned :: int

record link =
  link_id :: int
  user_id :: int
  url :: string
  title :: string
  created_at :: int

record db =
  users :: "user list"
  links :: "link list"
  links_seq :: int

definition primary_key :: "db \<Rightarrow> bool" where
  "primary_key d = distinct (map uid (users d))"

text \<open>\<open>db.prepare("SELECT * FROM users WHERE id = ?").get(id)\<close>\<close>

definition select_user :: "db \<Rightarrow> int \<Rightarrow> user option" where
  "select_user d i = find (\<lambda>u. uid u = i) (users d)"

text \<open>\<open>x || y\<close> on a string that may be undefined: the empty string is falsy too.\<close>

definition or_else :: "string option \<Rightarrow> string \<Rightarrow> string" where
  "or_else x y = (case x of None \<Rightarrow> y | Some s \<Rightarrow> if s = [] then y else s)"

text \<open>
  \<open>getUser(id, username)\<close>. A missing user is inserted with
  \<open>(id, username || "unknown", 0)\<close> and the column defaults
  \<open>last_active = CURRENT_TIMESTAMP\<close>, \<open>warned = 0\<close>; the object returned for it is
  built by hand and carries the caller's \<open>username\<close> as it came.
\<close>

definition getUser :: "int \<Rightarrow> db \<Rightarrow> int \<Rightarrow> string option \<Rightarrow> user \<times> db" where
  "getUser now d i name =
     (case select_user d i of
        Some u \<Rightarrow> (u, d)
      | None \<Rightarrow>
          (\<lparr>uid = i, username = name, points = 0, last_active = now, warned = 0\<rparr>,
           d\<lparr>users := users d @
               [\<lparr>uid = i, username = Some (or_else name ''unknown''), points = 0,
                 last_active = now, warned = 0\<rparr>]\<rparr>))"

text \<open>\<open>UPDATE users SET ... WHERE id = ?\<close>\<close>

definition update_users :: "(user \<Rightarrow> user) \<Rightarrow> int \<Rightarrow> db \<Rightarrow> db" where
  "update_users f i d = d\<lparr>users := map (\<lambda>u. if uid u = i then f u else u) (users d)\<rparr>"

definition updateActivity :: "int \<Rightarrow> int \<Rightarrow> db \<Rightarrow> db" where
  "updateActivity now i d = update_users (\<lambda>u. u\<lparr>last_active := now, warned := 0\<rparr>) i d"

definition addPoints :: "int \<Rightarrow> int \<Rightarrow> db \<Rightarrow> db" where
  "addPoints i amount d = update_users (\<lambda>u. u\<lparr>points := points u + amount\<rparr>) i d"

definition deductPoints :: "int \<Rightarrow> int \<Rightarrow> db \<Rightarrow> db" where
  "deductPoints i amount d = update_users (\<lambda>u. u\<lparr>points := points u - amount\<rparr>) i d"

text \<open>\<open>INSERT INTO links (user_id, url, title) VALUES (?, ?, ?)\<close>\<close>

definition insert_link :: "int \<Rightarrow> int \<Rightarrow> string \<Rightarrow> string \<Rightarrow> db \<Rightarrow> db" where
  "insert_link now owner u t d =
     d\<lparr>links := links d @
         [\<lparr>link_id = links_seq d + 1, user_id = owner, url = u, title = t, created_at = now\<rparr>],
       links_seq := links_seq d + 1\<rparr>"

section \<open>What the bot sends\<close>

text \<open>
  Each template literal of the source is one constructor, with the values it
  interpolates as arguments. A call of \<open>bot.sendMessage\<close> or
  \<open>bot.answerCallbackQuery\<close> is an \<open>action\<close>; a handler returns the actions it
  issued, in order.
\<close>

datatype message_text =
    Welcome string int
  | Profile_Text string int int
  | Not_Enough_Points int int
  | Link_Posted string string
  | No_Links
  | Link_Card string string int
  | Earned string int
  | Stats_Text nat nat int
  | Inactivity_Warning
  | Inactivity_Penalty
  | Ai_Reply string
  | Ai_Fallback

datatype action =
    SendMessage int message_text
  | AnswerCallbackQuery string int

record msg =
  from_id :: int
  from_username :: "string option"
  from_first_name :: "string option"
  chat_id :: int
  msg_text :: "string option"

record callback_query =
  query_id :: string
  query_from_id :: int
  query_from_username :: "string option"
  data :: string
  query_chat_id :: int

section \<open>Commands\<close>

definition start_handler :: "int \<Rightarrow> db \<Rightarrow> msg \<Rightarrow> db \<times> action list" where
  "start_handler now d m =
     (let (u, d1) = getUser now d (from_id m) (from_username m)
      in (d1, [SendMessage (chat_id m) (Welcome (or_else (from_first_name m) ''friend'') (points u))]))"

definition profile_handler :: "int \<Rightarrow> db \<Rightarrow> msg \<Rightarrow> db \<times> action list" where
  "profile_handler now d m =
     (let (u, d1) = getUser now d (from_id m) (from_username m)
      in (d1, [SendMessage (chat_id m)
                 (Profile_Text (or_else (username u) ''unknown'') (points u) (last_active u))]))"

text \<open>
  The body of the \<open>/droplink\<close> handler, given the two groups of its regular
  expression as \<open>u\<close> (\<open>match[1]\<close>) and \<open>t\<close> (\<open>match[2]\<close>).
\<close>

definition droplink_handler :: "int \<Rightarrow> db \<Rightarrow> msg \<Rightarrow> string \<Rightarrow> string \<Rightarrow> db \<times> action list" where
  "droplink_handler now d m u t =
     (let (usr, d1) = getUser now d (from_id m) (from_username m);
          cost = 1000
      in if points usr < cost
         then (d1, [SendMessage (chat_id m) (Not_Enough_Points cost (points usr))])
         else
           (let d2 = deductPoints (uid usr) cost d1;
                d3 = insert_link now (uid usr) u t d2;
                d4 = updateActivity now (uid usr) d3
            in (d4, [SendMessage (chat_id m) (Link_Posted t u)])))"

text \<open>
  The trigger \<open>/\/droplink (.+) (.+)/\<close>, run by the library as
  \<open>regexp.exec(msg.text)\<close>. The expression is not anchored, so the match is the
  leftmost one; \<open>.\<close> matches any character but a line terminator; both groups
  are greedy. At a given start the first group therefore first takes the whole run
  of characters up to the next line terminator and gives characters back one at a
  time, until a space follows it and at least one character is left for the second
  group, which takes the rest of the run.
\<close>

definition line_terminator :: "char \<Rightarrow> bool" where
  "line_terminator c = (c = CHR 0x0A \<or> c = CHR 0x0D)"

text \<open>
  \<open>split_groups run n\<close>: the first group tries the lengths \<open>n\<close>, \<open>n - 1\<close>, ..., 1
  inside \<open>run\<close>.
\<close>

fun split_groups :: "string \<Rightarrow> nat \<Rightarrow> (string \<times> string) option" where
  "split_groups run 0 = None"
| "split_groups run (Suc k) =
     (if Suc (Suc k) < length run \<and> run ! Suc k = CHR '' ''
      then Some (take (Suc k) run, drop (Suc (Suc k)) run)
      else split_groups run k)"

definition match_at :: "string \<Rightarrow> (string \<times> string) option" where
  "match_at s =
     (if take 10 s = ''/droplink ''
      then (let run = takeWhile (\<lambda>c. \<not> line_terminator c) (drop 10 s)
            in split_groups run (length run))
      else None)"

fun droplink_exec :: "string \<Rightarrow> (string \<times> string) option" where
  "droplink_exec [] = None"
| "droplink_exec (c # cs) =
     (case match_at (c # cs) of Some g \<Rightarrow> Some g | None \<Rightarrow> droplink_exec cs)"

text \<open>
  \<open>bot.onText(/\/droplink (.+) (.+)/, ...)\<close> on an incoming message: the callback
  runs when the message has a text and the expression matches it.
\<close>

definition on_droplink :: "int \<Rightarrow> db \<Rightarrow> msg \<Rightarrow> db \<times> action list" where
  "on_droplink now d m =
     (case msg_text m of
        None \<Rightarrow> (d, [])
      | Some s \<Rightarrow>
          (case droplink_exec s of
             None \<Rightarrow> (d, [])
           | Some (u, t) \<Rightarrow> droplink_handler now d m u t))"

text \<open>
  \<open>SELECT * FROM links ORDER BY created_at DESC LIMIT 10\<close>. The sort is stable:
  rows with the same \<open>created_at\<close> stay in table order.
\<close>

definition recentLinks :: "db \<Rightarrow> link list" where
  "recentLinks d = take 10 (sort_key (\<lambda>l. - created_at l) (links d))"

definition browse_handler :: "db \<Rightarrow> msg \<Rightarrow> db \<times> action list" where
  "browse_handler d m =
     (let ls = recentLinks d
      in if ls = [] then (d, [SendMessage (chat_id m) No_Links])
         else (d, map (\<lambda>l. SendMessage (chat_id m) (Link_Card (title l) (url l) (link_id l))) ls))"

section \<open>Button handler\<close>

text \<open>
  \<open>pointsMap\<close> is an object literal, and \<open>pointsMap[action]\<close> is a property
  lookup: besides the three own properties it finds what every object inherits
  from \<open>Object.prototype\<close>, a function or (for \<open>__proto__\<close>) an object. The value
  of the lookup is a number, \<open>undefined\<close>, or such an inherited member.
\<close>

datatype js_value = Number int | Undefined | Inherited

definition object_prototype_keys :: "string list" where
  "object_prototype_keys =
     [''constructor'', ''hasOwnProperty'', ''isPrototypeOf'', ''propertyIsEnumerable'',
      ''toLocaleString'', ''toString'', ''valueOf'', ''__proto__'',
      ''__defineGetter__'', ''__defineSetter__'', ''__lookupGetter__'', ''__lookupSetter__'']"

definition pointsMap :: "string \<Rightarrow> js_value" where
  "pointsMap k =
     (if k = ''like'' then Number 200
      else if k = ''comment'' then Number 350
      else if k = ''repost'' then Number 500
      else if k \<in> set object_prototype_keys then Inherited
      else Undefined)"

text \<open>\<open>v || 0\<close>: \<open>undefined\<close> and 0 are falsy, functions and objects are truthy.\<close>

definition or_zero :: "js_value \<Rightarrow> js_value" where
  "or_zero v = (case v of Undefined \<Rightarrow> Number 0 | Number n \<Rightarrow> (if n = 0 then Number 0 else Number n)
                | Inherited \<Rightarrow> Inherited)"

text \<open>
  The statement parameter \<open>amount\<close> of \<open>addPoints\<close>: the database driver binds a
  number and throws on a function, on \<open>undefined\<close> and on an object that does not
  name the parameters.
\<close>

definition bind_amount :: "js_value \<Rightarrow> int option" where
  "bind_amount v = (case v of Number n \<Rightarrow> Some n | Undefined \<Rightarrow> None | Inherited \<Rightarrow> None)"

datatype js_error = Bind_Error

text \<open>
  The \<open>callback_query\<close> listener. \<open>query.data.split("_")[0]\<close> is the text before
  the first underscore. When \<open>addPoints\<close> throws, the listener ends there: the store
  is as \<open>getUser\<close> left it and nothing has been sent.
\<close>

definition callback_query_handler ::
  "int \<Rightarrow> db \<Rightarrow> callback_query \<Rightarrow> js_error \<times> db + db \<times> action list" where
  "callback_query_handler now d q =
     (let action = takeWhile (\<lambda>c. c \<noteq> CHR ''_'') (data q);
          (u, d1) = getUser now d (query_from_id q) (query_from_username q);
          earned = or_zero (pointsMap action)
      in case bind_amount earned of
           None \<Rightarrow> Inl (Bind_Error, d1)
         | Some n \<Rightarrow>
             (let d2 = addPoints (uid u) n d1;
                  d3 = updateActivity now (uid u) d2
              in Inr (d3, [AnswerCallbackQuery (query_id q) n,
                           SendMessage (query_chat_id q) (Earned (or_else (username u) ''User'') n)])))"

definition store_after :: "js_error \<times> db + db \<times> action list \<Rightarrow> db" where
  "store_after r = (case r of Inl (e, d) \<Rightarrow> d | Inr (d, acts) \<Rightarrow> d)"

section \<open>Administrator command\<close>

text \<open>\<open>String(n)\<close> for an integer \<open>n\<close>: its decimal digits, with a sign when negative.\<close>

fun decimal :: "nat \<Rightarrow> string" where
  "decimal n =
     (if n < 10 then [char_of (48 + n)]
      else decimal (n div 10) @ [char_of (48 + n mod 10)])"

declare decimal.simps [simp del]

definition String_of_int :: "int \<Rightarrow> string" where
  "String_of_int i = (if i < 0 then CHR ''-'' # decimal (nat (- i)) else decimal (nat i))"

text \<open>\<open>String(process.env.ADMIN_ID)\<close>: an unset variable is \<open>undefined\<close>.\<close>

definition String_of_env :: "string option \<Rightarrow> string" where
  "String_of_env v = (case v of None \<Rightarrow> ''undefined'' | Some s \<Rightarrow> s)"

text \<open>\<open>SELECT SUM(points) AS total FROM users\<close>: NULL when the table has no row.\<close>

definition sum_points :: "db \<Rightarrow> int option" where
  "sum_points d = (if users d = [] then None else Some (sum_list (map points (users d))))"

definition stats_handler :: "string option \<Rightarrow> db \<Rightarrow> msg \<Rightarrow> db \<times> action list" where
  "stats_handler admin_id d m =
     (if String_of_int (from_id m) \<noteq> String_of_env admin_id then (d, [])
      else
        (let n_users = length (users d);
             n_links = length (links d);
             totalPoints = (case sum_points d of None \<Rightarrow> 0 | Some t \<Rightarrow> if t = 0 then 0 else t)
         in (d, [SendMessage (chat_id m) (Stats_Text n_users n_links totalPoints)])))"

section \<open>Cron jobs\<close>

text \<open>
  Both jobs first select rows (\<open>.all()\<close>), then run \<open>forEach\<close> over that result.
  \<open>strftime('%s','now') - strftime('%s', last_active)\<close> is \<open>now - last_active\<close> in
  seconds.
\<close>

definition warn_select :: "int \<Rightarrow> db \<Rightarrow> user list" where
  "warn_select now d = filter (\<lambda>u. warned u = 0 \<and> now - last_active u > 172800) (users d)"

fun warn_each :: "user list \<Rightarrow> db \<Rightarrow> db \<times> action list" where
  "warn_each [] d = (d, [])"
| "warn_each (u # us) d =
     (let (d', acts) = warn_each us (update_users (\<lambda>r. r\<lparr>warned := 1\<rparr>) (uid u) d)
      in (d', SendMessage (uid u) Inactivity_Warning # acts))"

definition warn_job :: "int \<Rightarrow> db \<Rightarrow> db \<times> action list" where
  "warn_job now d = warn_each (warn_select now d) d"

definition penalty_select :: "int \<Rightarrow> db \<Rightarrow> user list" where
  "penalty_select now d = filter (\<lambda>u. now - last_active u > 259200) (users d)"

fun penalty_each :: "user list \<Rightarrow> db \<Rightarrow> db \<times> action list" where
  "penalty_each [] d = (d, [])"
| "penalty_each (u # us) d =
     (let (d', acts) = penalty_each us (deductPoints (uid u) 100 d)
      in (d', SendMessage (uid u) Inactivity_Penalty # acts))"

definition penalty_job :: "int \<Rightarrow> db \<Rightarrow> db \<times> action list" where
  "penalty_job now d = penalty_each (penalty_select now d) d"

text \<open>The penalty job run at each time of a list, one tick after the other.\<close>

fun penalty_ticks :: "int list \<Rightarrow> db \<Rightarrow> db" where
  "penalty_ticks [] d = d"
| "penalty_ticks (t # ts) d = penalty_ticks ts (fst (penalty_job t d))"

section \<open>Conversational handler\<close>

text \<open>
  The \<open>message\<close> listener. \<open>reply\<close> is the outcome of the external completion
  call: the text it returned, or \<open>None\<close> when the call threw.
\<close>

definition white_space :: "char \<Rightarrow> bool" where
  "white_space c = (c \<in> {CHR 0x09, CHR 0x0A, CHR 0x0B, CHR 0x0C, CHR 0x0D, CHR 0x20, CHR 0xA0})"

definition trim :: "string \<Rightarrow> string" where
  "trim s = rev (dropWhile white_space (rev (dropWhile white_space s)))"

definition message_handler :: "int \<Rightarrow> db \<Rightarrow> msg \<Rightarrow> string option \<Rightarrow> db \<times> action list" where
  "message_handler now d m reply =
     (case map_option trim (msg_text m) of
        None \<Rightarrow> (d, [])
      | Some t \<Rightarrow>
          if t = [] \<or> take 1 t = ''/'' then (d, [])
          else
            (let (u, d1) = getUser now d (from_id m) (from_username m)
             in (d1, [SendMessage (chat_id m)
                        (case reply of Some r \<Rightarrow> Ai_Reply r | None \<Rightarrow> Ai_Fallback)])))"

section \<open>Sample data\<close>

text \<open>A user, a store, a message and a button press, for the concrete instances below.\<close>

definition sample_user :: "int \<Rightarrow> int \<Rightarrow> int \<Rightarrow> user" where
  "sample_user p t w = \<lparr>uid = 1, username = Some ''ann'', points = p, last_active = t, warned = w\<rparr>"

definition sample_store :: "user list \<Rightarrow> db" where
  "sample_store us = \<lparr>users = us, links = [], links_seq = 0\<rparr>"

definition sample_msg :: "string \<Rightarrow> msg" where
  "sample_msg s = \<lparr>from_id = 1, from_username = Some ''ann'', from_first_name = Some ''Ann'',
                    chat_id = 10, msg_text = Some s\<rparr>"

definition sample_query :: "string \<Rightarrow> callback_query" where
  "sample_query s = \<lparr>query_id = ''q1'', query_from_id = 1, query_from_username = Some ''ann'',
                      data = s, query_chat_id = 10\<rparr>"

definition sample_link :: "int \<Rightarrow> int \<Rightarrow> link" where
  "sample_link i t = \<lparr>link_id = i, user_id = 1, url = ''u'', title = ''t'', created_at = t\<rparr>"

section \<open>Lookups and updates of the users table\<close>

lemmas sample_defs = sample_user_def sample_store_def sample_msg_def sample_query_def

lemma find_uid: "find (\<lambda>u. uid u = i) us = Some u \<Longrightarrow> uid u = i \<and> u \<in> set us"
  by (induction us) (auto split: if_splits)

lemma select_user_uid: "select_user d i = Some u \<Longrightarrow> uid u = i"
  by (auto simp: select_user_def dest: find_uid)

lemma select_user_mem: "select_user d i = Some u \<Longrightarrow> u \<in> set (users d)"
  by (auto simp: select_user_def dest: find_uid)

lemma find_None_uid: "find (\<lambda>u. uid u = i) us = None \<longleftrightarrow> i \<notin> uid ` set us"
  by (induction us) auto

lemma select_user_None: "select_user d i = None \<longleftrightarrow> i \<notin> uid ` set (users d)"
  by (simp add: select_user_def find_None_uid)

lemma find_distinct:
  "distinct (map uid us) \<Longrightarrow> u \<in> set us \<Longrightarrow> find (\<lambda>r. uid r = uid u) us = Some u"
  by (induction us) force+

lemma select_user_row: "primary_key d \<Longrightarrow> u \<in> set (users d) \<Longrightarrow> select_user d (uid u) = Some u"
  by (simp add: select_user_def primary_key_def find_distinct)

lemma find_map_update:
  "(\<And>u. uid (f u) = uid u) \<Longrightarrow>
   find (\<lambda>u. uid u = j) (map (\<lambda>u. if uid u = i then f u else u) us) =
     map_option (\<lambda>u. if uid u = i then f u else u) (find (\<lambda>u. uid u = j) us)"
  by (induction us) auto

lemma select_user_update:
  "(\<And>u. uid (f u) = uid u) \<Longrightarrow>
   select_user (update_users f i d) j =
     map_option (\<lambda>u. if uid u = i then f u else u) (select_user d j)"
  by (simp add: select_user_def update_users_def find_map_update)

lemma links_update_users [simp]: "links (update_users f i d) = links d"
  and links_seq_update_users [simp]: "links_seq (update_users f i d) = links_seq d"
  by (simp_all add: update_users_def)

lemma select_user_insert_link [simp]: "select_user (insert_link now ow u t d) j = select_user d j"
  by (simp add: select_user_def insert_link_def)

lemma getUser_cases:
  "getUser now d i name = (u, d1) \<Longrightarrow>
     (select_user d i = Some u \<and> d1 = d) \<or>
     (select_user d i = None \<and> u = \<lparr>uid = i, username = name, points = 0, last_active = now, warned = 0\<rparr> \<and>
      d1 = d\<lparr>users := users d @ [\<lparr>uid = i, username = Some (or_else name ''unknown''), points = 0,
                 last_active = now, warned = 0\<rparr>]\<rparr>)"
  by (auto simp: getUser_def split: option.splits)

lemma getUser_existing: "select_user d i = Some u \<Longrightarrow> getUser now d i name = (u, d)"
  by (simp add: getUser_def)

lemma find_append_new: "find P us = None \<Longrightarrow> find P (us @ [r]) = (if P r then Some r else None)"
  by (induction us) (auto split: if_splits)

lemma getUser_stored:
  "getUser now d i name = (u, d1) \<Longrightarrow>
   \<exists>r. select_user d1 i = Some r \<and> uid r = i \<and> points r = points u \<and> uid u = i
     \<and> last_active r = last_active u \<and> warned r = warned u"
  by (auto simp: getUser_def select_user_def find_append_new dest: find_uid split: option.splits)

lemma getUser_links [simp]: "links (snd (getUser now d i name)) = links d"
  and getUser_links_seq [simp]: "links_seq (snd (getUser now d i name)) = links_seq d"
  by (simp_all add: getUser_def split: option.splits)

lemma primary_key_getUser: "primary_key d \<Longrightarrow> primary_key (snd (getUser now d i name))"
  by (auto simp: primary_key_def getUser_def select_user_None split: option.splits)

lemma map_uid_update:
  "(\<And>u. uid (f u) = uid u) \<Longrightarrow>
   map (uid \<circ> (\<lambda>u. if uid u = i then f u else u)) us = map uid us"
  by (induction us) auto

lemma primary_key_update_users:
  "(\<And>u. uid (f u) = uid u) \<Longrightarrow> primary_key (update_users f i d) = primary_key d"
  by (simp add: primary_key_def update_users_def map_uid_update)

lemma select_user_getUser:
  "getUser now d i name = (u, d1) \<Longrightarrow> select_user d1 i \<noteq> None"
  by (drule getUser_stored) auto

lemma getUser_uid: "getUser now d i name = (u, d1) \<Longrightarrow> uid u = i"
  by (drule getUser_stored) auto

lemma getUser_points:
  "getUser now d i name = (u, d1) \<Longrightarrow> map_option points (select_user d1 i) = Some (points u)"
  by (drule getUser_stored) auto

lemma getUser_links_eq: "getUser now d i name = (u, d1) \<Longrightarrow> links d1 = links d \<and> links_seq d1 = links_seq d"
  using getUser_links [of now d i name] getUser_links_seq [of now d i name] by simp

lemma select_user_update_other:
  "(\<And>u. uid (f u) = uid u) \<Longrightarrow> select_user d j \<noteq> None \<Longrightarrow> select_user (update_users f i d) j \<noteq> None"
  by (simp add: select_user_update)

section \<open>Posting a link\<close>

text \<open>
  Claim C1. The balance of the sender is what \<open>getUser\<close> reads at the start of the
  handler (0 for a sender seen for the first time). When it is at least 1000, the
  \<open>/droplink\<close> handler leaves the sender with exactly 1000 points less and
  appends exactly one row to \<open>links\<close>, owned by the sender; when it is below 1000,
  the balance and the \<open>links\<close> table are unchanged, so no row is created.
\<close>

theorem droplink_debits_and_posts:
  assumes g: "getUser now d (from_id m) (from_username m) = (usr, d1)"
    and h: "droplink_handler now d m u t = (d', acts)"
  shows "if 1000 \<le> points usr
         then map_option points (select_user d' (from_id m)) = Some (points usr - 1000)
            \<and> links d' = links d @ [\<lparr>link_id = links_seq d + 1, user_id = from_id m, url = u,
                                      title = t, created_at = now\<rparr>]
            \<and> length (links d') = length (links d) + 1
         else map_option points (select_user d' (from_id m)) = Some (points usr)
            \<and> links d' = links d"
proof (cases "1000 \<le> points usr")
  case True
  from g obtain r where r: "select_user d1 (from_id m) = Some r" "points r = points usr"
    and i: "uid usr = from_id m"
    using getUser_stored by blast
  from True g h have d': "d' = updateActivity now (from_id m)
        (insert_link now (from_id m) u t (deductPoints (from_id m) 1000 d1))"
    by (simp add: droplink_handler_def Let_def i)
  have p: "map_option points (select_user d' (from_id m)) = Some (points usr - 1000)"
    by (simp add: d' updateActivity_def deductPoints_def select_user_update r select_user_uid [OF r(1)])
  have l: "links d' = links d @ [\<lparr>link_id = links_seq d + 1, user_id = from_id m, url = u,
                                      title = t, created_at = now\<rparr>]"
    using getUser_links_eq [OF g]
    by (simp add: d' updateActivity_def deductPoints_def insert_link_def)
  from True p l show ?thesis by simp
next
  case False
  with g h have "d' = d1" by (simp add: droplink_handler_def Let_def)
  with False getUser_points [OF g] getUser_links_eq [OF g] show ?thesis by simp
qed

text \<open>
  Claim C9. For a sender whose record exists with fewer than 1000 points, the
  \<open>/droplink\<close> handler returns the store as it was: no field of the sender's record
  changes (\<open>last_active\<close> and \<open>warned\<close> included, \<open>updateActivity\<close> is not
  reached), no other record changes, and the only effect is the rejection message.
\<close>

theorem droplink_failure_frame:
  assumes "select_user d (from_id m) = Some usr" and "points usr < 1000"
  shows "droplink_handler now d m u t =
           (d, [SendMessage (chat_id m) (Not_Enough_Points 1000 (points usr))])"
  using assms by (simp add: droplink_handler_def getUser_existing)

theorem droplink_debits_and_posts_witness:
  "droplink_handler 50 (sample_store [sample_user 1000 0 1]) (sample_msg ''/droplink a b'') ''a'' ''b'' =
     (\<lparr>users = [sample_user 0 50 0],
       links = [\<lparr>link_id = 1, user_id = 1, url = ''a'', title = ''b'', created_at = 50\<rparr>],
       links_seq = 1\<rparr>,
      [SendMessage 10 (Link_Posted ''b'' ''a'')])
   \<and> map_option points (select_user \<lparr>users = [sample_user 0 50 0],
       links = [\<lparr>link_id = 1, user_id = 1, url = ''a'', title = ''b'', created_at = 50\<rparr>],
       links_seq = 1\<rparr> 1) = Some 0
   \<and> droplink_handler 50 (sample_store [sample_user 999 0 1]) (sample_msg ''/droplink a b'') ''a'' ''b'' =
     (sample_store [sample_user 999 0 1], [SendMessage 10 (Not_Enough_Points 1000 999)])
   \<and> map_option points (select_user (sample_store [sample_user 999 0 1]) 1) = Some 999"
proof -
  have g1: "getUser 50 (sample_store [sample_user 1000 0 1]) (from_id (sample_msg ''/droplink a b''))
              (from_username (sample_msg ''/droplink a b'')) =
            (sample_user 1000 0 1, sample_store [sample_user 1000 0 1])"
    by (simp add: getUser_def select_user_def sample_defs)
  have h1: "droplink_handler 50 (sample_store [sample_user 1000 0 1]) (sample_msg ''/droplink a b'') ''a'' ''b'' =
     (\<lparr>users = [sample_user 0 50 0],
       links = [\<lparr>link_id = 1, user_id = 1, url = ''a'', title = ''b'', created_at = 50\<rparr>],
       links_seq = 1\<rparr>,
      [SendMessage 10 (Link_Posted ''b'' ''a'')])"
    by (simp add: droplink_handler_def getUser_def select_user_def sample_defs deductPoints_def
          updateActivity_def update_users_def insert_link_def)
  have g2: "getUser 50 (sample_store [sample_user 999 0 1]) (from_id (sample_msg ''/droplink a b''))
              (from_username (sample_msg ''/droplink a b'')) =
            (sample_user 999 0 1, sample_store [sample_user 999 0 1])"
    by (simp add: getUser_def select_user_def sample_defs)
  have h2: "droplink_handler 50 (sample_store [sample_user 999 0 1]) (sample_msg ''/droplink a b'') ''a'' ''b'' =
     (sample_store [sample_user 999 0 1], [SendMessage 10 (Not_Enough_Points 1000 999)])"
    by (simp add: droplink_handler_def getUser_def select_user_def sample_defs)
  have p1: "points (sample_user 1000 0 1) = 1000" and p2: "points (sample_user 999 0 1) = 999"
    by (simp_all add: sample_defs)
  from droplink_debits_and_posts [OF g1 h1] droplink_debits_and_posts [OF g2 h2] h1 h2 p1 p2
  show ?thesis by (simp add: sample_msg_def)
qed

theorem droplink_failure_frame_witness:
  "select_user (sample_store [sample_user 999 7 1]) (from_id (sample_msg ''/droplink a b'')) =
     Some (sample_user 999 7 1)
   \<and> points (sample_user 999 7 1) < 1000
   \<and> droplink_handler 50 (sample_store [sample_user 999 7 1]) (sample_msg ''/droplink a b'') ''a'' ''b'' =
       (sample_store [sample_user 999 7 1], [SendMessage 10 (Not_Enough_Points 1000 999)])"
proof -
  have s: "select_user (sample_store [sample_user 999 7 1]) (from_id (sample_msg ''/droplink a b'')) =
     Some (sample_user 999 7 1)"
    by (simp add: select_user_def sample_defs)
  have p: "points (sample_user 999 7 1) < 1000" by (simp add: sample_defs)
  from droplink_failure_frame [OF s p, of 50 "''a''" "''b''"] s p show ?thesis
    by (simp add: sample_defs)
qed

section \<open>The administrator command\<close>

lemma decimal_not_Nil: "decimal n \<noteq> []"
  by (subst decimal.simps) simp

lemma digit_inj: "a < 10 \<Longrightarrow> b < 10 \<Longrightarrow> char_of (48 + a :: nat) = char_of (48 + b :: nat) \<Longrightarrow> a = b"
proof -
  assume a: "a < 10" and b: "b < 10" and e: "char_of (48 + a) = char_of (48 + b)"
  from e have "of_char (char_of (48 + a)) = (of_char (char_of (48 + b)) :: nat)" by simp
  with a b show "a = b" by simp
qed

lemma decimal_inj: "decimal m = decimal n \<Longrightarrow> m = n"
proof (induction m arbitrary: n rule: decimal.induct)
  case (1 m)
  show ?case
  proof (cases "m < 10")
    case True
    then have m: "decimal m = [char_of (48 + m)]" by (subst decimal.simps) simp
    have n: "n < 10"
    proof (rule ccontr)
      assume "\<not> n < 10"
      then have "decimal n = decimal (n div 10) @ [char_of (48 + n mod 10)]"
        by (subst decimal.simps) simp
      with m "1.prems" decimal_not_Nil [of "n div 10"] show False by simp
    qed
    then have "decimal n = [char_of (48 + n)]" by (subst decimal.simps) simp
    with m "1.prems" True n show ?thesis by (simp add: digit_inj)
  next
    case False
    then have m: "decimal m = decimal (m div 10) @ [char_of (48 + m mod 10)]"
      by (subst decimal.simps) simp
    have n: "\<not> n < 10"
    proof
      assume "n < 10"
      then have "decimal n = [char_of (48 + n)]" by (subst decimal.simps) simp
      with m "1.prems" decimal_not_Nil [of "m div 10"] show False by simp
    qed
    then have "decimal n = decimal (n div 10) @ [char_of (48 + n mod 10)]"
      by (subst decimal.simps) simp
    with m "1.prems" have e: "decimal (m div 10) = decimal (n div 10)"
      and c: "char_of (48 + m mod 10) = char_of (48 + n mod 10)" by simp_all
    from "1.IH" [OF False e] have "m div 10 = n div 10" .
    moreover from c have "m mod 10 = n mod 10" by (intro digit_inj) simp_all
    ultimately show ?thesis by (metis div_mult_mod_eq)
  qed
qed

lemma decimal_no_minus: "CHR ''-'' \<notin> set (decimal n)"
proof (induction n rule: decimal.induct)
  case (1 n)
  have d: "\<And>k::nat. k < 10 \<Longrightarrow> char_of (48 + k) \<noteq> CHR ''-''"
  proof
    fix k :: nat assume k: "k < 10" and "char_of (48 + k) = CHR ''-''"
    then have "of_char (char_of (48 + k)) = (of_char (CHR ''-'') :: nat)" by simp
    with k show False by simp
  qed
  show ?case
  proof (cases "n < 10")
    case True
    then have "decimal n = [char_of (48 + n)]" by (subst decimal.simps) simp
    with d [OF True] show ?thesis by auto
  next
    case False
    then have "decimal n = decimal (n div 10) @ [char_of (48 + n mod 10)]"
      by (subst decimal.simps) simp
    with "1.IH" [OF False] d [of "n mod 10"] show ?thesis by auto
  qed
qed

lemma String_of_int_inj: "String_of_int i = String_of_int j \<Longrightarrow> i = j"
proof -
  assume e: "String_of_int i = String_of_int j"
  have m: "\<And>n s. CHR ''-'' # s \<noteq> decimal n"
    using decimal_no_minus by (metis list.set_intros(1))
  show "i = j"
  proof (cases "i < 0"; cases "j < 0")
    assume "i < 0" "j < 0"
    with e have "decimal (nat (- i)) = decimal (nat (- j))" by (simp add: String_of_int_def)
    then have "nat (- i) = nat (- j)" by (rule decimal_inj)
    with \<open>i < 0\<close> \<open>j < 0\<close> show ?thesis by simp
  next
    assume "i < 0" "\<not> j < 0"
    with e m show ?thesis by (simp add: String_of_int_def)
  next
    assume "\<not> i < 0" "j < 0"
    with e m [of "decimal (nat (- j))" "nat i"] show ?thesis by (simp add: String_of_int_def)
  next
    assume "\<not> i < 0" "\<not> j < 0"
    with e have "decimal (nat i) = decimal (nat j)" by (simp add: String_of_int_def)
    then have "nat i = nat j" by (rule decimal_inj)
    with \<open>\<not> i < 0\<close> \<open>\<not> j < 0\<close> show ?thesis by simp
  qed
qed

text \<open>
  Claim C7. The \<open>/stats\<close> handler compares \<open>String(msg.from.id)\<close> with
  \<open>String(process.env.ADMIN_ID)\<close>. When they differ it sends nothing and returns
  the store as it was; in particular, when the variable holds the decimal form of
  an identity \<open>a\<close>, every sender other than \<open>a\<close> gets no reply. When they are
  equal the store is unchanged as well and the single reply reports the number of
  users, the number of links and the sum of all balances; with no user the total
  reported is 0.
\<close>

theorem stats_admin_only:
  "stats_handler admin_id d m =
     (if String_of_int (from_id m) = String_of_env admin_id
      then (d, [SendMessage (chat_id m)
                  (Stats_Text (length (users d)) (length (links d)) (sum_list (map points (users d))))])
      else (d, []))
   \<and> (from_id m \<noteq> a \<longrightarrow> stats_handler (Some (String_of_int a)) d m = (d, []))
   \<and> (users d = [] \<longrightarrow>
        stats_handler (Some (String_of_int (from_id m))) d m =
          (d, [SendMessage (chat_id m) (Stats_Text 0 (length (links d)) 0)]))"
proof -
  have 1: "stats_handler admin_id d m =
     (if String_of_int (from_id m) = String_of_env admin_id
      then (d, [SendMessage (chat_id m)
                  (Stats_Text (length (users d)) (length (links d)) (sum_list (map points (users d))))])
      else (d, []))" for admin_id
    by (simp add: stats_handler_def sum_points_def)
  have 2: "from_id m \<noteq> a \<Longrightarrow> stats_handler (Some (String_of_int a)) d m = (d, [])"
    using String_of_int_inj [of "from_id m" a] by (auto simp: 1 String_of_env_def)
  have 3: "users d = [] \<Longrightarrow> stats_handler (Some (String_of_int (from_id m))) d m =
          (d, [SendMessage (chat_id m) (Stats_Text 0 (length (links d)) 0)])"
    by (simp add: 1 String_of_env_def)
  from 1 2 3 show ?thesis by blast
qed

theorem stats_admin_only_witness:
  "stats_handler (Some ''1'') (sample_store [sample_user 30 0 0]) (sample_msg ''/stats'') =
     (sample_store [sample_user 30 0 0], [SendMessage 10 (Stats_Text 1 0 30)])
   \<and> stats_handler (Some ''2'') (sample_store [sample_user 30 0 0]) (sample_msg ''/stats'') =
     (sample_store [sample_user 30 0 0], [])
   \<and> stats_handler (Some ''1'') (sample_store []) (sample_msg ''/stats'') =
     (sample_store [], [SendMessage 10 (Stats_Text 0 0 0)])"
proof -
  have s1: "String_of_int 1 = ''1''" by code_simp
  have s2: "String_of_int 2 = ''2''" by code_simp
  have f: "from_id (sample_msg ''/stats'') = 1" "chat_id (sample_msg ''/stats'') = 10"
    by (simp_all add: sample_defs)
  from stats_admin_only [of "Some ''1''" "sample_store [sample_user 30 0 0]" "sample_msg ''/stats''" 2]
       stats_admin_only [of "Some ''1''" "sample_store []" "sample_msg ''/stats''" 2]
  show ?thesis
    by (simp add: f s1 s2 String_of_env_def) (simp add: sample_defs)
qed

section \<open>Creation of user records\<close>

lemma select_user_droplink:
  "select_user (fst (droplink_handler now d m u t)) (from_id m) \<noteq> None"
proof -
  obtain usr d1 where g: "getUser now d (from_id m) (from_username m) = (usr, d1)"
    by (cases "getUser now d (from_id m) (from_username m)")
  from select_user_getUser [OF g] show ?thesis
    by (simp add: droplink_handler_def g Let_def deductPoints_def updateActivity_def
          select_user_update)
qed

lemma select_user_callback:
  "select_user (store_after (callback_query_handler now d q)) (query_from_id q) \<noteq> None"
proof -
  obtain usr d1 where g: "getUser now d (query_from_id q) (query_from_username q) = (usr, d1)"
    by (cases "getUser now d (query_from_id q) (query_from_username q)")
  from select_user_getUser [OF g] show ?thesis
    by (simp add: callback_query_handler_def store_after_def g Let_def addPoints_def
          updateActivity_def select_user_update split: option.split)
qed

lemma select_user_message:
  assumes "msg_text m = Some s" and "trim s \<noteq> []" and "take 1 (trim s) \<noteq> ''/''"
  shows "select_user (fst (message_handler now d m reply)) (from_id m) \<noteq> None"
proof -
  obtain usr d1 where g: "getUser now d (from_id m) (from_username m) = (usr, d1)"
    by (cases "getUser now d (from_id m) (from_username m)")
  from select_user_getUser [OF g] assms show ?thesis
    by (simp add: message_handler_def g)
qed

lemma getUser_new:
  assumes "select_user d i = None"
  shows "getUser now d i name =
           (\<lparr>uid = i, username = name, points = 0, last_active = now, warned = 0\<rparr>,
            d\<lparr>users := users d @ [\<lparr>uid = i, username = Some (or_else name ''unknown''),
                                     points = 0, last_active = now, warned = 0\<rparr>]\<rparr>)"
    and "select_user (snd (getUser now d i name)) i =
           Some \<lparr>uid = i, username = Some (or_else name ''unknown''), points = 0,
                 last_active = now, warned = 0\<rparr>"
  using assms by (simp_all add: getUser_def select_user_def find_append_new)

text \<open>
  Claim C8, as the code has it. \<open>getUser\<close> on an id that has a record returns that
  record and leaves the store unchanged; on an id without one it appends exactly
  one row, with \<open>points = 0\<close>, \<open>warned = 0\<close> and \<open>last_active = now\<close>. A record
  of the sender exists after each handler that calls \<open>getUser\<close>: \<open>/start\<close>,
  \<open>/profile\<close>, \<open>/droplink\<close> (when its expression matched), a button press (also
  when the listener throws afterwards), and a text message that is not a command.
\<close>

theorem getUser_on_contact:
  "(select_user d i = Some u \<longrightarrow> getUser now d i name = (u, d))
   \<and> (select_user d i = None \<longrightarrow>
        users (snd (getUser now d i name)) =
          users d @ [\<lparr>uid = i, username = Some (or_else name ''unknown''), points = 0,
                      last_active = now, warned = 0\<rparr>]
        \<and> select_user (snd (getUser now d i name)) i =
          Some \<lparr>uid = i, username = Some (or_else name ''unknown''), points = 0,
                last_active = now, warned = 0\<rparr>)
   \<and> select_user (fst (start_handler now d m)) (from_id m) \<noteq> None
   \<and> select_user (fst (profile_handler now d m)) (from_id m) \<noteq> None
   \<and> select_user (fst (droplink_handler now d m l t)) (from_id m) \<noteq> None
   \<and> select_user (store_after (callback_query_handler now d q)) (query_from_id q) \<noteq> None
   \<and> (msg_text m = Some s \<and> trim s \<noteq> [] \<and> take 1 (trim s) \<noteq> ''/'' \<longrightarrow>
        select_user (fst (message_handler now d m reply)) (from_id m) \<noteq> None)"
proof -
  obtain usr d1 where g: "getUser now d (from_id m) (from_username m) = (usr, d1)"
    by (cases "getUser now d (from_id m) (from_username m)")
  have a: "select_user (fst (start_handler now d m)) (from_id m) \<noteq> None"
    using select_user_getUser [OF g] by (simp add: start_handler_def g)
  have b: "select_user (fst (profile_handler now d m)) (from_id m) \<noteq> None"
    using select_user_getUser [OF g] by (simp add: profile_handler_def g)
  have c: "select_user d i = None \<Longrightarrow> users (snd (getUser now d i name)) =
          users d @ [\<lparr>uid = i, username = Some (or_else name ''unknown''), points = 0,
                      last_active = now, warned = 0\<rparr>]"
    by (simp add: getUser_new(1))
  from a b c getUser_existing [of d i u now name] getUser_new(2) [of d i now name]
    select_user_droplink [of now d m l t] select_user_callback [of now d q]
    select_user_message [of m s now d reply]
  show ?thesis by blast
qed

text \<open>
  The \<open>/browse\<close> and \<open>/stats\<close> handlers do not call \<open>getUser\<close>: after either, a
  sender never seen before still has no record.
\<close>

theorem browse_creates_no_user:
  "select_user (fst (browse_handler (sample_store []) (sample_msg ''/browse'')))
     (from_id (sample_msg ''/browse'')) = None
   \<and> select_user (fst (stats_handler (Some ''1'') (sample_store []) (sample_msg ''/stats'')))
     (from_id (sample_msg ''/stats'')) = None"
  by (simp add: browse_handler_def stats_handler_def recentLinks_def select_user_def sample_defs)

theorem getUser_on_contact_witness:
  "getUser 5 (sample_store [sample_user 30 0 1]) 1 (Some ''ann'') =
     (sample_user 30 0 1, sample_store [sample_user 30 0 1])
   \<and> users (snd (getUser 5 (sample_store []) 1 None)) =
       [\<lparr>uid = 1, username = Some ''unknown'', points = 0, last_active = 5, warned = 0\<rparr>]
   \<and> select_user (snd (getUser 5 (sample_store []) 1 None)) 1 =
       Some \<lparr>uid = 1, username = Some ''unknown'', points = 0, last_active = 5, warned = 0\<rparr>
   \<and> select_user (fst (message_handler 5 (sample_store []) (sample_msg '' hello '') None)) 1 \<noteq> None"
proof -
  have e: "select_user (sample_store [sample_user 30 0 1]) 1 = Some (sample_user 30 0 1)"
    and n: "select_user (sample_store []) 1 = None"
    by (simp_all add: select_user_def sample_defs)
  have t: "msg_text (sample_msg '' hello '') = Some '' hello ''"
    "trim '' hello '' = ''hello''" "from_id (sample_msg '' hello '') = 1"
    by (simp_all add: sample_defs trim_def white_space_def)
  from getUser_on_contact [of "sample_store [sample_user 30 0 1]" 1 "sample_user 30 0 1" 5 "Some ''ann''"]
       getUser_on_contact [of "sample_store []" 1 _ 5 None "sample_msg '' hello ''" _ _ _ "'' hello ''" None]
  show ?thesis
    by (simp add: e n t) (simp add: sample_defs or_else_def)
qed

section \<open>Inactivity\<close>

lemma find_map_uid:
  "(\<And>u. uid (g u) = uid u) \<Longrightarrow>
   find (\<lambda>u. uid u = j) (map g us) = map_option g (find (\<lambda>u. uid u = j) us)"
  by (induction us) auto

lemma count_list_distinct: "distinct xs \<Longrightarrow> x \<in> set xs \<Longrightarrow> count_list xs x = 1"
  by (induction xs) (auto simp: count_list_0_iff)

lemma count_list_map_inj: "inj f \<Longrightarrow> count_list (map f xs) (f x) = count_list xs x"
  by (induction xs) (auto dest: injD)

lemma inj_warning: "inj (\<lambda>i. SendMessage i txt)"
  by (rule injI) simp

subsection \<open>The warn job\<close>

lemma warn_each_actions:
  "snd (warn_each us d) = map (\<lambda>i. SendMessage i Inactivity_Warning) (map uid us)"
  by (induction us arbitrary: d) (simp_all add: split_beta)

lemma warn_each_users:
  "users (fst (warn_each us d)) =
     map (\<lambda>r. if uid r \<in> uid ` set us then r\<lparr>warned := 1\<rparr> else r) (users d)"
proof (induction us arbitrary: d)
  case Nil
  show ?case by simp
next
  case (Cons u us)
  show ?case
    by (auto simp add: split_beta Cons.IH update_users_def)
qed

lemma warn_each_links:
  "links (fst (warn_each us d)) = links d \<and> links_seq (fst (warn_each us d)) = links_seq d"
  by (induction us arbitrary: d) (simp_all add: split_beta)

lemma primary_key_warn_job: "primary_key (fst (warn_job now d)) = primary_key d"
proof -
  have c: "uid \<circ> (\<lambda>r. if uid r \<in> S then r\<lparr>warned := 1\<rparr> else r) = uid" for S
    by (auto simp: fun_eq_iff)
  show ?thesis
    by (simp add: primary_key_def warn_job_def warn_each_users c)
qed

lemma warn_job_selected:
  assumes pk: "primary_key d" and r: "select_user d i = Some r"
    and w: "warned r = 0" and t: "172800 < now - last_active r"
  shows "count_list (snd (warn_job now d)) (SendMessage i Inactivity_Warning) = 1"
    and "select_user (fst (warn_job now d)) i = Some (r\<lparr>warned := 1\<rparr>)"
proof -
  have i: "uid r = i" and m: "r \<in> set (users d)"
    using r by (simp_all add: select_user_uid select_user_mem)
  from m w t have s: "r \<in> set (warn_select now d)" by (simp add: warn_select_def)
  from pk have "distinct (map uid (warn_select now d))"
    by (simp add: primary_key_def warn_select_def distinct_map_filter)
  with s have "count_list (map uid (warn_select now d)) (uid r) = 1"
    by (intro count_list_distinct) auto
  then show "count_list (snd (warn_job now d)) (SendMessage i Inactivity_Warning) = 1"
    by (simp only: warn_job_def warn_each_actions count_list_map_inj [OF inj_warning] i)
  from s show "select_user (fst (warn_job now d)) i = Some (r\<lparr>warned := 1\<rparr>)"
    using r by (simp add: select_user_def warn_job_def warn_each_users find_map_uid i [symmetric])
qed

lemma warn_job_not_selected:
  assumes pk: "primary_key d" and r: "select_user d i = Some r"
    and n: "\<not> (warned r = 0 \<and> 172800 < now - last_active r)"
  shows "count_list (snd (warn_job now d)) (SendMessage i Inactivity_Warning) = 0"
    and "select_user (fst (warn_job now d)) i = Some r"
proof -
  have i: "uid r = i" and m: "r \<in> set (users d)"
    using r by (simp_all add: select_user_uid select_user_mem)
  have ns: "i \<notin> uid ` set (warn_select now d)"
  proof
    assume "i \<in> uid ` set (warn_select now d)"
    then obtain r' where r': "r' \<in> set (users d)" "uid r' = i"
      "warned r' = 0 \<and> 172800 < now - last_active r'"
      by (auto simp: warn_select_def)
    from select_user_row [OF pk r'(1)] r r'(2) have "r' = r" by simp
    with n r'(3) show False by simp
  qed
  then show "count_list (snd (warn_job now d)) (SendMessage i Inactivity_Warning) = 0"
    by (auto simp: warn_job_def warn_each_actions count_list_0_iff)
  from ns show "select_user (fst (warn_job now d)) i = Some r"
    using r by (simp add: select_user_def warn_job_def warn_each_users find_map_uid i [symmetric])
qed

lemma primary_key_updateActivity: "primary_key (updateActivity t i d) = primary_key d"
  by (simp add: updateActivity_def primary_key_update_users)

lemma select_user_updateActivity:
  "select_user d i = Some r \<Longrightarrow>
   select_user (updateActivity t i d) i = Some (r\<lparr>last_active := t, warned := 0\<rparr>)"
  by (simp add: updateActivity_def select_user_update select_user_uid)

text \<open>
  Claim C5, as the code has it. The warn job selects the rows with \<open>warned = 0\<close> and
  an inactivity of more than 172800 seconds. For such a user one tick sends exactly
  one warning to that user and sets \<open>warned\<close> to 1; a later tick sends no further
  warning while \<open>warned\<close> stays 1. After \<open>updateActivity\<close> at time \<open>t'\<close> the
  user has \<open>warned = 0\<close> and \<open>last_active = t'\<close>; a tick at \<open>now'\<close> then warns
  the user again exactly when \<open>now' - t'\<close> exceeds 172800, and otherwise sends
  nothing to the user and leaves the record as it is.
\<close>

theorem warn_job_warns_once:
  assumes pk: "primary_key d" and r: "select_user d i = Some r"
    and w: "warned r = 0" and t: "172800 < now - last_active r"
  shows "count_list (snd (warn_job now d)) (SendMessage i Inactivity_Warning) = 1
       \<and> select_user (fst (warn_job now d)) i = Some (r\<lparr>warned := 1\<rparr>)
       \<and> count_list (snd (warn_job now' (fst (warn_job now d)))) (SendMessage i Inactivity_Warning) = 0
       \<and> select_user (updateActivity t' i (fst (warn_job now d))) i =
            Some (r\<lparr>last_active := t', warned := 0\<rparr>)
       \<and> (if 172800 < now' - t'
           then count_list (snd (warn_job now' (updateActivity t' i (fst (warn_job now d)))))
                  (SendMessage i Inactivity_Warning) = 1
           else count_list (snd (warn_job now' (updateActivity t' i (fst (warn_job now d)))))
                  (SendMessage i Inactivity_Warning) = 0
              \<and> select_user (fst (warn_job now' (updateActivity t' i (fst (warn_job now d))))) i =
                  Some (r\<lparr>last_active := t', warned := 0\<rparr>))"
proof -
  let ?d1 = "fst (warn_job now d)"
  let ?d2 = "updateActivity t' i ?d1"
  let ?r2 = "r\<lparr>last_active := t', warned := 0\<rparr>"
  note a = warn_job_selected [OF pk r w t]
  have pk1: "primary_key ?d1" using pk by (simp add: primary_key_warn_job)
  have b: "count_list (snd (warn_job now' ?d1)) (SendMessage i Inactivity_Warning) = 0"
    by (rule warn_job_not_selected(1) [OF pk1 a(2)]) simp
  have pk2: "primary_key ?d2" using pk1 by (simp add: primary_key_updateActivity)
  have r2: "select_user ?d2 i = Some ?r2"
    using select_user_updateActivity [OF a(2), of t'] by simp
  have c: "172800 < now' - t' \<Longrightarrow>
      count_list (snd (warn_job now' ?d2)) (SendMessage i Inactivity_Warning) = 1"
    by (rule warn_job_selected(1) [OF pk2 r2]) simp_all
  have e: "\<not> 172800 < now' - t' \<Longrightarrow>
      count_list (snd (warn_job now' ?d2)) (SendMessage i Inactivity_Warning) = 0
      \<and> select_user (fst (warn_job now' ?d2)) i = Some ?r2"
    using warn_job_not_selected [OF pk2 r2, of now'] by simp
  from a b r2 c e show ?thesis by simp
qed

text \<open>
  At an inactivity of exactly 172800 seconds the comparison \<open>> 172800\<close> of the
  query fails: nothing is sent and \<open>warned\<close> stays 0.
\<close>

theorem warn_job_boundary:
  "172800 \<le> 172800 - last_active (sample_user 0 0 0)
   \<and> warned (sample_user 0 0 0) = 0
   \<and> warn_job 172800 (sample_store [sample_user 0 0 0]) = (sample_store [sample_user 0 0 0], [])"
  by (simp add: warn_job_def warn_select_def sample_defs)

theorem warn_job_warns_once_witness:
  "primary_key (sample_store [sample_user 0 0 0])
   \<and> select_user (sample_store [sample_user 0 0 0]) 1 = Some (sample_user 0 0 0)
   \<and> warn_job 172801 (sample_store [sample_user 0 0 0]) =
       (sample_store [sample_user 0 0 1], [SendMessage 1 Inactivity_Warning])
   \<and> count_list (snd (warn_job 172801 (sample_store [sample_user 0 0 0])))
        (SendMessage 1 Inactivity_Warning) = 1
   \<and> count_list (snd (warn_job 176401 (fst (warn_job 172801 (sample_store [sample_user 0 0 0])))))
        (SendMessage 1 Inactivity_Warning) = 0
   \<and> count_list (snd (warn_job 176401
          (updateActivity 172900 1 (fst (warn_job 172801 (sample_store [sample_user 0 0 0]))))))
        (SendMessage 1 Inactivity_Warning) = 0
   \<and> count_list (snd (warn_job 345701
          (updateActivity 172900 1 (fst (warn_job 172801 (sample_store [sample_user 0 0 0]))))))
        (SendMessage 1 Inactivity_Warning) = 1"
proof -
  have pk: "primary_key (sample_store [sample_user 0 0 0])"
    by (simp add: primary_key_def sample_defs)
  have r: "select_user (sample_store [sample_user 0 0 0]) 1 = Some (sample_user 0 0 0)"
    by (simp add: select_user_def sample_defs)
  have w: "warned (sample_user 0 0 0) = 0" by (simp add: sample_defs)
  have t: "172800 < 172801 - last_active (sample_user 0 0 0)" by (simp add: sample_defs)
  have j: "warn_job 172801 (sample_store [sample_user 0 0 0]) =
       (sample_store [sample_user 0 0 1], [SendMessage 1 Inactivity_Warning])"
    by (simp add: warn_job_def warn_select_def update_users_def sample_defs)
  from warn_job_warns_once [OF pk r w t, of 176401 172900]
       warn_job_warns_once [OF pk r w t, of 345701 172900] pk r j
  show ?thesis by simp
qed

subsection \<open>The penalty job\<close>

lemma penalty_each_actions:
  "snd (penalty_each us d) = map (\<lambda>i. SendMessage i Inactivity_Penalty) (map uid us)"
  by (induction us arbitrary: d) (simp_all add: split_beta)

lemma penalty_each_users:
  "distinct (map uid us) \<Longrightarrow>
   users (fst (penalty_each us d)) =
     map (\<lambda>r. if uid r \<in> uid ` set us then r\<lparr>points := points r - 100\<rparr> else r) (users d)"
proof (induction us arbitrary: d)
  case Nil
  show ?case by simp
next
  case (Cons u us)
  then show ?case
    by (auto simp add: split_beta deductPoints_def update_users_def)
qed

lemma penalty_each_links:
  "links (fst (penalty_each us d)) = links d \<and> links_seq (fst (penalty_each us d)) = links_seq d"
  by (induction us arbitrary: d) (simp_all add: split_beta deductPoints_def)

lemma distinct_penalty_select: "primary_key d \<Longrightarrow> distinct (map uid (penalty_select now d))"
  by (simp add: primary_key_def penalty_select_def distinct_map_filter)

lemma primary_key_penalty_job: "primary_key d \<Longrightarrow> primary_key (fst (penalty_job now d))"
proof -
  assume pk: "primary_key d"
  have c: "uid \<circ> (\<lambda>r. if uid r \<in> S then r\<lparr>points := points r - 100\<rparr> else r) = uid" for S
    by (auto simp: fun_eq_iff)
  from pk show ?thesis
    by (simp add: penalty_job_def penalty_each_users [OF distinct_penalty_select [OF pk]] c
          primary_key_def)
qed

lemma penalty_job_selected:
  assumes pk: "primary_key d" and r: "select_user d i = Some r"
    and t: "259200 < now - last_active r"
  shows "select_user (fst (penalty_job now d)) i = Some (r\<lparr>points := points r - 100\<rparr>)"
    and "count_list (snd (penalty_job now d)) (SendMessage i Inactivity_Penalty) = 1"
proof -
  have i: "uid r = i" and m: "r \<in> set (users d)"
    using r by (simp_all add: select_user_uid select_user_mem)
  from m t have s: "r \<in> set (penalty_select now d)" by (simp add: penalty_select_def)
  note dist = distinct_penalty_select [OF pk, of now]
  from s show "select_user (fst (penalty_job now d)) i = Some (r\<lparr>points := points r - 100\<rparr>)"
    using r
    by (simp add: select_user_def penalty_job_def penalty_each_users [OF dist] find_map_uid
          i [symmetric])
  from dist s have "count_list (map uid (penalty_select now d)) (uid r) = 1"
    by (intro count_list_distinct) auto
  then show "count_list (snd (penalty_job now d)) (SendMessage i Inactivity_Penalty) = 1"
    by (simp only: penalty_job_def penalty_each_actions count_list_map_inj [OF inj_warning] i)
qed

lemma penalty_job_not_selected:
  assumes pk: "primary_key d" and r: "select_user d i = Some r"
    and n: "\<not> 259200 < now - last_active r"
  shows "select_user (fst (penalty_job now d)) i = Some r"
    and "count_list (snd (penalty_job now d)) (SendMessage i Inactivity_Penalty) = 0"
proof -
  have i: "uid r = i" and m: "r \<in> set (users d)"
    using r by (simp_all add: select_user_uid select_user_mem)
  have ns: "i \<notin> uid ` set (penalty_select now d)"
  proof
    assume "i \<in> uid ` set (penalty_select now d)"
    then obtain r' where r': "r' \<in> set (users d)" "uid r' = i" "259200 < now - last_active r'"
      by (auto simp: penalty_select_def)
    from select_user_row [OF pk r'(1)] r r'(2) have "r' = r" by simp
    with n r'(3) show False by simp
  qed
  note dist = distinct_penalty_select [OF pk, of now]
  from ns show "select_user (fst (penalty_job now d)) i = Some r"
    using r
    by (simp add: select_user_def penalty_job_def penalty_each_users [OF dist] find_map_uid
          i [symmetric])
  from ns show "count_list (snd (penalty_job now d)) (SendMessage i Inactivity_Penalty) = 0"
    by (auto simp: penalty_job_def penalty_each_actions count_list_0_iff)
qed

lemma penalty_ticks_selected:
  "primary_key d \<Longrightarrow> select_user d i = Some r \<Longrightarrow>
   \<forall>t \<in> set ts. 259200 < t - last_active r \<Longrightarrow>
   select_user (penalty_ticks ts d) i = Some (r\<lparr>points := points r - 100 * int (length ts)\<rparr>)"
proof (induction ts arbitrary: d r)
  case Nil
  then show ?case by simp
next
  case (Cons t ts)
  from Cons.prems have t: "259200 < t - last_active r" by simp
  let ?d = "fst (penalty_job t d)"
  let ?r = "r\<lparr>points := points r - 100\<rparr>"
  have pk: "primary_key ?d" by (rule primary_key_penalty_job [OF Cons.prems(1)])
  have r: "select_user ?d i = Some ?r"
    by (rule penalty_job_selected(1) [OF Cons.prems(1,2) t])
  have "\<forall>t \<in> set ts. 259200 < t - last_active ?r" using Cons.prems(3) by simp
  from Cons.IH [OF pk r this] show ?case by (simp add: algebra_simps)
qed

text \<open>
  Claim C6, as the code has it. The penalty job selects the rows with an inactivity
  of more than 259200 seconds, whatever \<open>warned\<close> is. For such a user one tick
  deducts exactly 100 points and sends one penalty message; the job does not touch
  \<open>last_active\<close>, so over any sequence of ticks at times that are all more than
  259200 seconds after \<open>last_active\<close> the user loses 100 points per tick. For a user
  whose inactivity is 259200 seconds or less a tick deducts nothing, leaves the
  record as it is and sends the user no penalty message.
\<close>

theorem penalty_job_deducts_100:
  assumes pk: "primary_key d" and r: "select_user d i = Some r"
  shows "(259200 < now - last_active r \<longrightarrow>
            select_user (fst (penalty_job now d)) i = Some (r\<lparr>points := points r - 100\<rparr>)
          \<and> count_list (snd (penalty_job now d)) (SendMessage i Inactivity_Penalty) = 1)
       \<and> (\<not> 259200 < now - last_active r \<longrightarrow>
            select_user (fst (penalty_job now d)) i = Some r
          \<and> count_list (snd (penalty_job now d)) (SendMessage i Inactivity_Penalty) = 0)
       \<and> ((\<forall>t \<in> set ts. 259200 < t - last_active r) \<longrightarrow>
            select_user (penalty_ticks ts d) i =
              Some (r\<lparr>points := points r - 100 * int (length ts)\<rparr>))"
  using penalty_job_selected [OF pk r] penalty_job_not_selected [OF pk r]
    penalty_ticks_selected [OF pk r] by blast

text \<open>
  At an inactivity of exactly 259200 seconds the comparison \<open>> 259200\<close> of the
  query fails: no points are deducted and nothing is sent.
\<close>

theorem penalty_job_boundary:
  "259200 \<le> 259200 - last_active (sample_user 500 0 1)
   \<and> penalty_job 259200 (sample_store [sample_user 500 0 1]) = (sample_store [sample_user 500 0 1], [])"
  by (simp add: penalty_job_def penalty_select_def sample_defs)

theorem penalty_job_deducts_100_witness:
  "primary_key (sample_store [sample_user 500 0 0])
   \<and> select_user (sample_store [sample_user 500 0 0]) 1 = Some (sample_user 500 0 0)
   \<and> penalty_job 259201 (sample_store [sample_user 500 0 0]) =
       (sample_store [sample_user 400 0 0], [SendMessage 1 Inactivity_Penalty])
   \<and> select_user (fst (penalty_job 259201 (sample_store [sample_user 500 0 0]))) 1 =
       Some (sample_user 400 0 0)
   \<and> select_user (fst (penalty_job 259200 (sample_store [sample_user 500 0 0]))) 1 =
       Some (sample_user 500 0 0)
   \<and> count_list (snd (penalty_job 259200 (sample_store [sample_user 500 0 0])))
        (SendMessage 1 Inactivity_Penalty) = 0
   \<and> select_user (penalty_ticks [259201, 261001, 262801] (sample_store [sample_user 500 0 0])) 1 =
       Some (sample_user 200 0 0)"
proof -
  have pk: "primary_key (sample_store [sample_user 500 0 0])"
    by (simp add: primary_key_def sample_defs)
  have r: "select_user (sample_store [sample_user 500 0 0]) 1 = Some (sample_user 500 0 0)"
    by (simp add: select_user_def sample_defs)
  have j: "penalty_job 259201 (sample_store [sample_user 500 0 0]) =
       (sample_store [sample_user 400 0 0], [SendMessage 1 Inactivity_Penalty])"
    by (simp add: penalty_job_def penalty_select_def deductPoints_def update_users_def sample_defs)
  have u: "sample_user 500 0 0\<lparr>points := points (sample_user 500 0 0) - 100\<rparr> = sample_user 400 0 0"
    "sample_user 500 0 0\<lparr>points := points (sample_user 500 0 0) - 100 * int (length [259201, 261001, 262801 :: int])\<rparr>
       = sample_user 200 0 0"
    "last_active (sample_user 500 0 0) = 0"
    by (simp_all add: sample_defs)
  from penalty_job_deducts_100 [OF pk r, of 259201 "[259201, 261001, 262801]"]
       penalty_job_deducts_100 [OF pk r, of 259200 "[]"] pk r j
  show ?thesis by (simp add: u) (simp add: sample_defs)
qed

section \<open>Browsing\<close>

lemma recentLinks_sorted:
  "sorted_wrt (\<lambda>a b. created_at b \<le> created_at a) (recentLinks d)"
proof -
  have "sorted (map (\<lambda>l. - created_at l) (sort_key (\<lambda>l. - created_at l) (links d)))"
    by (rule sorted_sort_key)
  then have "sorted_wrt (\<lambda>a b. created_at b \<le> created_at a) (sort_key (\<lambda>l. - created_at l) (links d))"
    by (simp add: sorted_map)
  then show ?thesis unfolding recentLinks_def by (rule sorted_wrt_take)
qed

lemma recentLinks_rest:
  "mset (recentLinks d @ drop 10 (sort_key (\<lambda>l. - created_at l) (links d))) = mset (links d)
   \<and> (\<forall>a \<in> set (recentLinks d). \<forall>b \<in> set (drop 10 (sort_key (\<lambda>l. - created_at l) (links d))).
         created_at b \<le> created_at a)"
proof -
  let ?s = "sort_key (\<lambda>l. - created_at l) (links d)"
  have "sorted (map (\<lambda>l. - created_at l) ?s)" by (rule sorted_sort_key)
  then have "sorted_wrt (\<lambda>a b. created_at b \<le> created_at a) ?s"
    by (simp add: sorted_map)
  then have "sorted_wrt (\<lambda>a b. created_at b \<le> created_at a) (take 10 ?s @ drop 10 ?s)"
    by simp
  then have "\<forall>a \<in> set (take 10 ?s). \<forall>b \<in> set (drop 10 ?s). created_at b \<le> created_at a"
    unfolding sorted_wrt_append by blast
  moreover have "mset (take 10 ?s @ drop 10 ?s) = mset (links d)" by simp
  ultimately show ?thesis unfolding recentLinks_def by blast
qed

lemma recentLinks_left_out:
  assumes "l \<in> set (links d)" and "l \<notin> set (recentLinks d)" and "a \<in> set (recentLinks d)"
  shows "created_at l \<le> created_at a"
proof -
  let ?s = "sort_key (\<lambda>l. - created_at l) (links d)"
  from assms(1) have "l \<in> set (take 10 ?s @ drop 10 ?s)" by simp
  with assms(2) have "l \<in> set (drop 10 ?s)"
    unfolding set_append recentLinks_def by blast
  with recentLinks_rest [of d] assms(3) show ?thesis by blast
qed

text \<open>
  Claim C4, as the code has it. The query of \<open>/browse\<close> returns the 10 first rows of
  the sorted table, or all rows when there are fewer: at most 10 links, all of them
  rows of \<open>links\<close>, in an order in which \<open>created_at\<close> never increases. They are
  the newest ones: every row of \<open>links\<close> that is left out has a \<open>created_at\<close> no
  later than that of every row returned, and the rows returned together with the
  rows left out are exactly the rows of \<open>links\<close>, each as often as it is there.
  Rows with the same \<open>created_at\<close> are not ordered by the query.
\<close>

theorem recentLinks_bounded_sorted:
  "length (recentLinks d) = min 10 (length (links d))
   \<and> length (recentLinks d) \<le> 10
   \<and> sorted_wrt (\<lambda>a b. created_at b \<le> created_at a) (recentLinks d)
   \<and> set (recentLinks d) \<subseteq> set (links d)
   \<and> (\<forall>l \<in> set (links d). l \<notin> set (recentLinks d) \<longrightarrow>
        (\<forall>a \<in> set (recentLinks d). created_at l \<le> created_at a))
   \<and> (\<exists>rest. mset (recentLinks d @ rest) = mset (links d)
        \<and> (\<forall>a \<in> set (recentLinks d). \<forall>b \<in> set rest. created_at b \<le> created_at a))"
proof -
  have "set (recentLinks d) \<subseteq> set (links d)"
    unfolding recentLinks_def using set_take_subset [of 10 "sort_key (\<lambda>l. - created_at l) (links d)"]
    by simp
  moreover have "length (recentLinks d) = min 10 (length (links d))"
    by (simp add: recentLinks_def)
  moreover have "\<exists>rest. mset (recentLinks d @ rest) = mset (links d)
        \<and> (\<forall>a \<in> set (recentLinks d). \<forall>b \<in> set rest. created_at b \<le> created_at a)"
    using recentLinks_rest [of d] by blast
  ultimately show ?thesis
    using recentLinks_sorted [of d] recentLinks_left_out [of _ d] by auto
qed

text \<open>
  Two links posted within the same second have the same \<open>created_at\<close>: the result
  of the query is then not strictly decreasing in \<open>created_at\<close>, and the stable sort
  returns the older link (the smaller id) first.
\<close>

theorem recentLinks_same_second:
  "fst (droplink_handler 5 (fst (droplink_handler 5 (sample_store [sample_user 2000 0 0])
          (sample_msg ''/droplink a b'') ''a'' ''b'')) (sample_msg ''/droplink c d'') ''c'' ''d'') =
     \<lparr>users = [sample_user 0 5 0],
      links = [\<lparr>link_id = 1, user_id = 1, url = ''a'', title = ''b'', created_at = 5\<rparr>,
               \<lparr>link_id = 2, user_id = 1, url = ''c'', title = ''d'', created_at = 5\<rparr>],
      links_seq = 2\<rparr>
   \<and> recentLinks
        \<lparr>users = [sample_user 0 5 0],
         links = [\<lparr>link_id = 1, user_id = 1, url = ''a'', title = ''b'', created_at = 5\<rparr>,
                  \<lparr>link_id = 2, user_id = 1, url = ''c'', title = ''d'', created_at = 5\<rparr>],
         links_seq = 2\<rparr> =
       [\<lparr>link_id = 1, user_id = 1, url = ''a'', title = ''b'', created_at = 5\<rparr>,
        \<lparr>link_id = 2, user_id = 1, url = ''c'', title = ''d'', created_at = 5\<rparr>]
   \<and> \<not> sorted_wrt (\<lambda>a b. created_at b < created_at a)
        (recentLinks
          \<lparr>users = [sample_user 0 5 0],
           links = [\<lparr>link_id = 1, user_id = 1, url = ''a'', title = ''b'', created_at = 5\<rparr>,
                    \<lparr>link_id = 2, user_id = 1, url = ''c'', title = ''d'', created_at = 5\<rparr>],
           links_seq = 2\<rparr>)"
  by (simp add: droplink_handler_def getUser_def select_user_def deductPoints_def
        updateActivity_def update_users_def insert_link_def recentLinks_def sample_defs)

theorem recentLinks_bounded_sorted_witness:
  "recentLinks \<lparr>users = [], links = map (\<lambda>n. sample_link n n) [1, 2, 3, 4, 5, 6, 7, 8, 9, 10, 11, 12],
                 links_seq = 12\<rparr> =
     map (\<lambda>n. sample_link n n) [12, 11, 10, 9, 8, 7, 6, 5, 4, 3]
   \<and> sample_link 2 2 \<in> set (links \<lparr>users = [],
          links = map (\<lambda>n. sample_link n n) [1, 2, 3, 4, 5, 6, 7, 8, 9, 10, 11, 12], links_seq = 12\<rparr>)
   \<and> sample_link 2 2 \<notin> set (recentLinks \<lparr>users = [],
          links = map (\<lambda>n. sample_link n n) [1, 2, 3, 4, 5, 6, 7, 8, 9, 10, 11, 12], links_seq = 12\<rparr>)
   \<and> sample_link 3 3 \<in> set (recentLinks \<lparr>users = [],
          links = map (\<lambda>n. sample_link n n) [1, 2, 3, 4, 5, 6, 7, 8, 9, 10, 11, 12], links_seq = 12\<rparr>)
   \<and> created_at (sample_link 2 2) \<le> created_at (sample_link 3 3)"
proof -
  let ?d = "\<lparr>users = [], links = map (\<lambda>n. sample_link n n) [1, 2, 3, 4, 5, 6, 7, 8, 9, 10, 11, 12],
             links_seq = 12\<rparr>"
  have e: "recentLinks ?d = map (\<lambda>n. sample_link n n) [12, 11, 10, 9, 8, 7, 6, 5, 4, 3]"
    by (simp add: recentLinks_def sample_link_def)
  have m: "sample_link 2 2 \<in> set (links ?d)" by simp
  have n: "sample_link 2 2 \<notin> set (recentLinks ?d)"
    unfolding e by (simp add: sample_link_def)
  have a: "sample_link 3 3 \<in> set (recentLinks ?d)"
    unfolding e by simp
  from recentLinks_bounded_sorted [of ?d] m n a
  have "created_at (sample_link 2 2) \<le> created_at (sample_link 3 3)" by blast
  with e m n a show ?thesis by blast
qed

section \<open>The expression of \<open>/droplink\<close>\<close>

text \<open>
  What the expression computes: when the text is \<open>/droplink\<close>, a space, \<open>u\<close>, a
  space and \<open>t\<close>, where \<open>t\<close> has no space and neither part has a line terminator,
  the groups are \<open>u\<close> and \<open>t\<close>. The split is at the last space: \<open>u\<close> may contain
  spaces, \<open>t\<close> may not.
\<close>

lemma split_groups_skip:
  assumes "\<And>k. a < k \<Longrightarrow> Suc k < length run \<Longrightarrow> run ! k \<noteq> CHR '' ''"
  shows "a \<le> n \<Longrightarrow> split_groups run n = split_groups run a"
proof (induction n)
  case 0
  then show ?case by simp
next
  case (Suc n)
  show ?case
  proof (cases "a = Suc n")
    case True
    then show ?thesis by simp
  next
    case False
    with Suc.prems have le: "a \<le> n" by simp
    then have "a < Suc n" by simp
    from assms [OF this] have "split_groups run (Suc n) = split_groups run n"
      by auto
    then show ?thesis using Suc.IH [OF le] by simp
  qed
qed

lemma split_groups_last_space:
  assumes u: "u \<noteq> []" and t: "t \<noteq> []" and s: "CHR '' '' \<notin> set t"
  shows "split_groups (u @ CHR '' '' # t) (length (u @ CHR '' '' # t)) = Some (u, t)"
proof -
  let ?run = "u @ CHR '' '' # t"
  have skip: "?run ! k \<noteq> CHR '' ''" if "length u < k" "Suc k < length ?run" for k
  proof -
    from that have "?run ! k = t ! (k - Suc (length u))" and "k - Suc (length u) < length t"
      by (auto simp: nth_append nth_Cons')
    with s show ?thesis by (metis nth_mem)
  qed
  have "split_groups ?run (length ?run) = split_groups ?run (length u)"
    by (rule split_groups_skip [OF skip]) simp_all
  also from u obtain k where k: "length u = Suc k" by (cases u) auto
  have "split_groups ?run (length u) = Some (u, t)"
    using t by (simp add: k nth_append)
  finally show ?thesis .
qed

lemma droplink_exec_last_space:
  assumes u: "u \<noteq> []" and t: "t \<noteq> []" and s: "CHR '' '' \<notin> set t"
    and l: "\<forall>c \<in> set (u @ t). \<not> line_terminator c"
  shows "droplink_exec (''/droplink '' @ u @ CHR '' '' # t) = Some (u, t)"
proof -
  have sp: "\<not> line_terminator (CHR '' '')" by (simp add: line_terminator_def)
  from l have tw: "takeWhile (\<lambda>c. \<not> line_terminator c) t = t"
    by (intro takeWhile_eq_all_conv [THEN iffD2]) auto
  from l have lu: "\<forall>c \<in> set u. \<not> line_terminator c" by auto
  have "match_at (''/droplink '' @ u @ CHR '' '' # t) = Some (u, t)"
    using split_groups_last_space [OF u t s] sp lu
    by (simp add: match_at_def Let_def tw del: split_groups.simps)
  then show ?thesis by simp
qed

text \<open>
  Claim C2. On \<open>/droplink http://x My Title\<close>, sent by a user with 1000 points, the
  greedy first group takes \<open>http://x My\<close> and the second group \<open>Title\<close>: the row
  stored has \<open>url = "http://x My"\<close> and \<open>title = "Title"\<close>, where the claim expects
  \<open>url = "http://x"\<close> and \<open>title = "My Title"\<close>.
\<close>

theorem droplink_multiword_title:
  "droplink_exec ''/droplink http://x My Title'' = Some (''http://x My'', ''Title'')
   \<and> on_droplink 50 (sample_store [sample_user 1000 0 0]) (sample_msg ''/droplink http://x My Title'') =
     (\<lparr>users = [sample_user 0 50 0],
       links = [\<lparr>link_id = 1, user_id = 1, url = ''http://x My'', title = ''Title'',
                 created_at = 50\<rparr>],
       links_seq = 1\<rparr>,
      [SendMessage 10 (Link_Posted ''Title'' ''http://x My'')])"
proof -
  have e: "droplink_exec ''/droplink http://x My Title'' = Some (''http://x My'', ''Title'')"
    using droplink_exec_last_space [of "''http://x My''" "''Title''"]
    by (simp add: line_terminator_def)
  have h: "droplink_handler 50 (sample_store [sample_user 1000 0 0])
             (sample_msg ''/droplink http://x My Title'') ''http://x My'' ''Title'' =
     (\<lparr>users = [sample_user 0 50 0],
       links = [\<lparr>link_id = 1, user_id = 1, url = ''http://x My'', title = ''Title'',
                 created_at = 50\<rparr>],
       links_seq = 1\<rparr>,
      [SendMessage 10 (Link_Posted ''Title'' ''http://x My'')])"
    by (simp add: droplink_handler_def getUser_def select_user_def deductPoints_def
          updateActivity_def update_users_def insert_link_def sample_defs)
  have t: "msg_text (sample_msg ''/droplink http://x My Title'') = Some ''/droplink http://x My Title''"
    by (simp add: sample_defs)
  show ?thesis by (simp add: on_droplink_def t e h del: droplink_exec.simps)
qed

section \<open>Button presses\<close>

text \<open>
  The reward is 200, 350 or 500 for \<open>like\<close>, \<open>comment\<close> and \<open>repost\<close>, and 0 for any
  other kind that \<open>Object.prototype\<close> does not define. With a numeric reward \<open>n\<close> the
  listener credits \<open>n\<close>, sets \<open>last_active\<close> to \<open>now\<close>, clears \<open>warned\<close>, and sends
  the acknowledgment and the broadcast, both carrying \<open>n\<close>. For a kind that
  \<open>Object.prototype\<close> defines the listener throws before any of that.
\<close>

lemma reward_table:
  "or_zero (pointsMap ''like'') = Number 200"
  "or_zero (pointsMap ''comment'') = Number 350"
  "or_zero (pointsMap ''repost'') = Number 500"
  "k \<notin> {''like'', ''comment'', ''repost''} \<Longrightarrow> k \<notin> set object_prototype_keys \<Longrightarrow>
     or_zero (pointsMap k) = Number 0"
  "k \<in> set object_prototype_keys \<Longrightarrow> or_zero (pointsMap k) = Inherited"
  by (auto simp: or_zero_def pointsMap_def object_prototype_keys_def)

lemma callback_query_number:
  assumes g: "getUser now d (query_from_id q) (query_from_username q) = (u, d1)"
    and r: "select_user d1 (query_from_id q) = Some r"
    and n: "or_zero (pointsMap (takeWhile (\<lambda>c. c \<noteq> CHR ''_'') (data q))) = Number n"
  shows "callback_query_handler now d q =
           Inr (updateActivity now (query_from_id q) (addPoints (query_from_id q) n d1),
                [AnswerCallbackQuery (query_id q) n,
                 SendMessage (query_chat_id q) (Earned (or_else (username u) ''User'') n)])"
    and "select_user (store_after (callback_query_handler now d q)) (query_from_id q) =
           Some (r\<lparr>points := points r + n, last_active := now, warned := 0\<rparr>)"
proof -
  show 1: "callback_query_handler now d q =
           Inr (updateActivity now (query_from_id q) (addPoints (query_from_id q) n d1),
                [AnswerCallbackQuery (query_id q) n,
                 SendMessage (query_chat_id q) (Earned (or_else (username u) ''User'') n)])"
    by (simp add: callback_query_handler_def Let_def g n bind_amount_def getUser_uid [OF g])
  show "select_user (store_after (callback_query_handler now d q)) (query_from_id q) =
           Some (r\<lparr>points := points r + n, last_active := now, warned := 0\<rparr>)"
    by (simp add: 1 store_after_def updateActivity_def addPoints_def select_user_update r
          select_user_uid [OF r])
qed

lemma callback_query_inherited:
  assumes g: "getUser now d (query_from_id q) (query_from_username q) = (u, d1)"
    and k: "takeWhile (\<lambda>c. c \<noteq> CHR ''_'') (data q) \<in> set object_prototype_keys"
  shows "callback_query_handler now d q = Inl (Bind_Error, d1)"
  by (simp add: callback_query_handler_def Let_def g reward_table(5) [OF k] bind_amount_def)

text \<open>
  Claim C3. A button press whose data is \<open>constructor_1\<close> has an action kind other
  than \<open>like\<close>, \<open>comment\<close> and \<open>repost\<close>, but \<open>pointsMap["constructor"]\<close> is the
  inherited constructor function and not \<open>undefined\<close>: \<open>earned\<close> is that function,
  not the number 0, and the listener throws when \<open>addPoints\<close> binds it, where the
  claim expects reward 0 and no error.
\<close>

theorem button_constructor_throws:
  "pointsMap (takeWhile (\<lambda>c. c \<noteq> CHR ''_'') (data (sample_query ''constructor_1''))) = Inherited
   \<and> callback_query_handler 50 (sample_store [sample_user 30 0 1]) (sample_query ''constructor_1'') =
       Inl (Bind_Error, sample_store [sample_user 30 0 1])"
  by (simp add: callback_query_handler_def getUser_def select_user_def pointsMap_def or_zero_def
        bind_amount_def object_prototype_keys_def sample_defs)

text \<open>
  Claim C10. A button press whose data is \<open>toString_7\<close>, by a user with \<open>warned = 1\<close>
  and \<open>last_active = 0\<close>, at time 50: the listener throws in \<open>addPoints\<close>, so
  \<open>updateActivity\<close> is not reached (the record keeps \<open>last_active = 0\<close> and
  \<open>warned = 1\<close>) and neither the acknowledgment nor the broadcast is sent, where the
  claim expects all three for every button press.
\<close>

theorem button_toString_no_activity:
  "callback_query_handler 50 (sample_store [sample_user 30 0 1]) (sample_query ''toString_7'') =
       Inl (Bind_Error, sample_store [sample_user 30 0 1])
   \<and> select_user (store_after (callback_query_handler 50 (sample_store [sample_user 30 0 1])
         (sample_query ''toString_7''))) 1 =
       Some \<lparr>uid = 1, username = Some ''ann'', points = 30, last_active = 0, warned = 1\<rparr>"
  by (simp add: callback_query_handler_def getUser_def select_user_def pointsMap_def or_zero_def
        bind_amount_def object_prototype_keys_def store_after_def sample_defs)

section \<open>The primary key\<close>

text \<open>Every handler keeps the ids of \<open>users\<close> distinct, as the two jobs do.\<close>

lemma primary_key_insert_link [simp]: "primary_key (insert_link now ow u t d) = primary_key d"
  by (simp add: primary_key_def insert_link_def)

lemma primary_key_handlers:
  assumes pk: "primary_key d"
  shows "primary_key (fst (start_handler now d m))"
    and "primary_key (fst (profile_handler now d m))"
    and "primary_key (fst (droplink_handler now d m u t))"
    and "primary_key (fst (on_droplink now d m))"
    and "primary_key (fst (browse_handler d m))"
    and "primary_key (store_after (callback_query_handler now d q))"
    and "primary_key (fst (stats_handler admin_id d m))"
    and "primary_key (fst (message_handler now d m reply))"
proof -
  have g: "primary_key (snd (getUser now d i name))" for i name
    using pk by (rule primary_key_getUser)
  show "primary_key (fst (start_handler now d m))"
    using g [of "from_id m" "from_username m"] by (simp add: start_handler_def split_beta)
  show "primary_key (fst (profile_handler now d m))"
    using g [of "from_id m" "from_username m"] by (simp add: profile_handler_def split_beta)
  show dl: "primary_key (fst (droplink_handler now d m u t))" for u t
    using g [of "from_id m" "from_username m"]
    by (simp add: droplink_handler_def split_beta Let_def deductPoints_def updateActivity_def
          primary_key_update_users)
  show "primary_key (fst (on_droplink now d m))"
    using pk dl by (simp add: on_droplink_def split: option.split)
  show "primary_key (fst (browse_handler d m))"
    using pk by (simp add: browse_handler_def Let_def)
  show "primary_key (store_after (callback_query_handler now d q))"
    using g [of "query_from_id q" "query_from_username q"]
    by (simp add: callback_query_handler_def store_after_def split_beta Let_def addPoints_def
          updateActivity_def primary_key_update_users split: option.split)
  show "primary_key (fst (stats_handler admin_id d m))"
    using pk by (simp add: stats_handler_def Let_def)
  show "primary_key (fst (message_handler now d m reply))"
    using pk g [of "from_id m" "from_username m"]
    by (simp add: message_handler_def split_beta split: option.split)
qed

end
